theory Spec2Isabelle
  imports Complex_Main
begin

section \<open>Vectors and scene data\<close>

text \<open>
  The component \<open>AsteroidScene\<close> works on JavaScript numbers. They are modelled as
  \<^typ>\<open>real\<close>: rounding, infinities and NaN of IEEE doubles are outside this development.
  A \<open>THREE.Vector3\<close> and a position tuple \<open>[x, y, z]\<close> are triples of numbers.
\<close>

type_synonym vec3 = "real \<times> real \<times> real"

text \<open>\<open>Vector3.length()\<close>: \<open>Math.sqrt(x * x + y * y + z * z)\<close>.\<close>

fun vlength :: "vec3 \<Rightarrow> real" where
  "vlength (x, y, z) = sqrt (x * x + y * y + z * z)"

text \<open>\<open>Vector3.multiplyScalar(s)\<close>.\<close>

fun multiplyScalar :: "vec3 \<Rightarrow> real \<Rightarrow> vec3" where
  "multiplyScalar (x, y, z) s = (x * s, y * s, z * s)"

text \<open>\<open>Vector3.add(v)\<close>.\<close>

fun add :: "vec3 \<Rightarrow> vec3 \<Rightarrow> vec3" where
  "add (x, y, z) (vx, vy, vz) = (x + vx, y + vy, z + vz)"

text \<open>\<open>Vector3.lerp(v, alpha)\<close>: \<open>this.x += (v.x - this.x) * alpha\<close>, and so on.\<close>

fun lerp :: "vec3 \<Rightarrow> vec3 \<Rightarrow> real \<Rightarrow> vec3" where
  "lerp (x, y, z) (vx, vy, vz) alpha =
     (x + (vx - x) * alpha, y + (vy - y) * alpha, z + (vz - z) * alpha)"

text \<open>The interface \<open>Asteroid\<close>; \<open>id\<close> and \<open>size\<close> are primed, the plain names are HOL constants.\<close>

record Asteroid =
  id' :: string
  name :: string
  position :: vec3
  size' :: real
  orbit :: "vec3 list"

section \<open>Scale normalizer\<close>

text \<open>
  \<open>const maxDist = pts.reduce((m, p) => Math.max(m, p.length()), 0) || 1\<close>:
  the fold starts at 0, and a result of 0 is replaced by 1.
\<close>

definition maxDist :: "Asteroid list \<Rightarrow> real" where
  "maxDist asteroids =
     (let pts = map position asteroids;
          m = foldl (\<lambda>m p. max m (vlength p)) 0 pts
      in if m = 0 then 1 else m)"

text \<open>The body of the \<open>useMemo\<close> that computes \<open>scale\<close>.\<close>

definition scale :: "Asteroid list \<Rightarrow> real" where
  "scale asteroids =
     (let maxDist = maxDist asteroids;
          desiredMax = 30;
          s = (if maxDist > 0 then desiredMax / maxDist else 1)
      in max 0.02 (min s 5))"

section \<open>Render projector\<close>

text \<open>
  What the JSX returned by the component draws for one asteroid: the sphere's radius and
  position, its colours, and the points, colour and opacity of the orbit line.
\<close>

record Rendered =
  key :: string
  sphere_radius :: real
  sphere_position :: vec3
  color :: string
  emissive :: string
  emissiveIntensity :: real
  line_points :: "vec3 list"
  line_color :: string
  line_opacity :: real

text \<open>\<open>asteroid.position.map((v) => v * scale)\<close>.\<close>

fun scaledPos :: "vec3 \<Rightarrow> real \<Rightarrow> vec3" where
  "scaledPos (x, y, z) s = (x * s, y * s, z * s)"

text \<open>\<open>asteroid.orbit.map((pt) => [pt[0] * scale, pt[1] * scale, pt[2] * scale])\<close>.\<close>

definition orbit_points :: "vec3 list \<Rightarrow> real \<Rightarrow> vec3 list" where
  "orbit_points pts s = map (\<lambda>pt. case pt of (x, y, z) \<Rightarrow> (x * s, y * s, z * s)) pts"

definition render_asteroid :: "string option \<Rightarrow> real \<Rightarrow> Asteroid \<Rightarrow> Rendered" where
  "render_asteroid highlightId s asteroid =
     (let isHighlighted = (highlightId = Some (id' asteroid))
      in \<lparr> key = id' asteroid,
           sphere_radius = max (size' asteroid * max 0.5 s) 0.05,
           sphere_position = scaledPos (position asteroid) s,
           color = (if isHighlighted then ''#FFA042'' else ''#909090''),
           emissive = (if isHighlighted then ''#FFB070'' else ''#000000''),
           emissiveIntensity = (if isHighlighted then 0.35 else 0),
           line_points = orbit_points (orbit asteroid) s,
           line_color = (if isHighlighted then ''#FFA042'' else ''#FFFFFF''),
           line_opacity = (if isHighlighted then 0.6 else 0.18) \<rparr>)"

text \<open>\<open>data.asteroids.map((asteroid) => ...)\<close> with the memoised \<open>scale\<close>.\<close>

definition render_asteroids :: "Asteroid list \<Rightarrow> string option \<Rightarrow> Rendered list" where
  "render_asteroids asteroids highlightId =
     map (render_asteroid highlightId (scale asteroids)) asteroids"

section \<open>Component state\<close>

text \<open>
  The navigation-control object (\<open>controlsRef.current ?? state.controls\<close>). It is typed
  \<open>any\<close>: \<open>target\<close>, \<open>enableRotate\<close> and \<open>enabled\<close> may be undefined, which is
  \<open>None\<close> here. \<open>update_calls\<close> counts the calls of \<open>controls.update()\<close>.
\<close>

record Controls =
  target :: "vec3 option"
  enableRotate :: "bool option"
  enabled :: "bool option"
  update_calls :: nat

text \<open>
  The camera: its position, and the argument of the last \<open>camera.lookAt\<close> call, which
  stands for the orientation that call sets.
\<close>

record Camera =
  cam_position :: vec3
  cam_lookAt :: "vec3 option"

text \<open>
  Objects are compared by identity in dependency arrays, so the array \<open>data.asteroids\<close>,
  the camera and the controls object are known by a reference.
\<close>

type_synonym ref = nat

text \<open>
  What one render of the component reads. From the props: \<open>data\<close>, the content of the
  array \<open>data.asteroids\<close>, and \<open>data_ref\<close>, its identity; \<open>highlightId\<close>, which is
  \<open>string | null | undefined\<close>; \<open>resetSignal\<close>, which is \<open>number | undefined\<close>;
  \<open>None\<close> stands for null and undefined, which need not be told apart: \<open>App\<close> passes
  \<open>selectedAsteroid?.id ?? null\<close> and a number. From \<open>useThree()\<close>: \<open>camera_ref\<close>, the
  camera object. \<open>controls_ref\<close> is the value of
  \<open>controlsRef?.current ?? state.controls\<close> in this render, \<open>None\<close> when both are
  missing. \<open>App\<close> replaces its scene data as a whole and never changes the array in
  place, so two renders with the same \<open>data_ref\<close> have the same \<open>data\<close>, and the
  memoised \<open>scale\<close> of a render is \<open>scale\<close> of its \<open>data\<close>.
\<close>

record Props =
  data :: "Asteroid list"
  highlightId :: "string option"
  resetSignal :: "real option"
  data_ref :: ref
  camera_ref :: ref
  controls_ref :: "ref option"

text \<open>
  The mutable state around the component: what the last render read, \<open>targetRef.current\<close>,
  the camera objects and the controls objects by reference, \<open>groupRef.current.rotation.y\<close>,
  and the host's timers. Time is a clock in milliseconds; \<open>timers\<close> holds the pending
  timeouts as pairs of timeout id and due time, \<open>next_id\<close> is the id the next
  \<open>setTimeout\<close> returns, and \<open>cleanup\<close> is the timeout id captured by the cleanup
  function that the last run of the reset effect returned.
\<close>

record Scene =
  props :: Props
  targetRef :: "vec3 option"
  cameras :: "ref \<Rightarrow> Camera"
  controls_objs :: "ref \<Rightarrow> Controls"
  rotation_y :: real
  now :: nat
  timers :: "(nat \<times> nat) list"
  next_id :: nat
  cleanup :: "nat option"

text \<open>
  The constants \<open>camera\<close> and \<open>controls\<close> of the component body: the camera and the
  controls object that the last render read.
\<close>

definition camera :: "Scene \<Rightarrow> Camera" where
  "camera st = cameras st (camera_ref (props st))"

definition controls :: "Scene \<Rightarrow> Controls option" where
  "controls st = map_option (controls_objs st) (controls_ref (props st))"

section \<open>Timers\<close>

definition setTimeout :: "nat \<Rightarrow> Scene \<Rightarrow> nat \<times> Scene" where
  "setTimeout delay st =
     (next_id st,
      st\<lparr> timers := timers st @ [(next_id st, now st + delay)],
          next_id := Suc (next_id st) \<rparr>)"

definition clearTimeout :: "nat \<Rightarrow> Scene \<Rightarrow> Scene" where
  "clearTimeout tid st = st\<lparr> timers := filter (\<lambda>(i, due). i \<noteq> tid) (timers st) \<rparr>"

text \<open>The callback passed to \<open>setTimeout\<close>: \<open>targetRef.current = null\<close>.\<close>

definition timeout_callback :: "Scene \<Rightarrow> Scene" where
  "timeout_callback st = st\<lparr> targetRef := None \<rparr>"

text \<open>
  \<open>d\<close> milliseconds pass: every pending timeout that is due by then runs its callback, in
  the order of arming, and leaves the pending list. \<open>fired\<close> counts the callbacks run.
\<close>

definition is_due :: "nat \<Rightarrow> nat \<times> nat \<Rightarrow> bool" where
  "is_due t tm = (snd tm \<le> t)"

definition fired :: "nat \<Rightarrow> Scene \<Rightarrow> nat" where
  "fired d st = length (filter (is_due (now st + d)) (timers st))"

definition elapse :: "nat \<Rightarrow> Scene \<Rightarrow> Scene" where
  "elapse d st =
     (let t = now st + d;
          st' = fold (\<lambda>tm. timeout_callback) (filter (is_due t) (timers st)) st
      in st'\<lparr> now := t, timers := filter (\<lambda>tm. \<not> is_due t tm) (timers st) \<rparr>)"

section \<open>Per-frame camera update\<close>

text \<open>
  The \<open>useFrame\<close> callback. It is the callback of the last render, so \<open>scale\<close>,
  \<open>camera\<close> and \<open>controls\<close> are the values of that render. The group is mounted when
  frames run, so \<open>groupRef.current\<close> is set.
\<close>

definition useFrame :: "Scene \<Rightarrow> Scene" where
  "useFrame st =
     (let st1 = st\<lparr> rotation_y := rotation_y st + 0.001 \<rparr>
      in case targetRef st1 of
           None \<Rightarrow> st1
         | Some tgt \<Rightarrow>
             (let t = 0.08;
                  s = scale (data (props st1));
                  desired = add tgt (0, 12 * s, 24 * s);
                  cam = camera_ref (props st1);
                  st2 = st1\<lparr> cameras := (cameras st1)
                            (cam := (cameras st1 cam)
                               \<lparr> cam_position := lerp (cam_position (cameras st1 cam)) desired t \<rparr>) \<rparr>
              in case controls_ref (props st2) of
                   Some r \<Rightarrow>
                     (let c = controls_objs st2 r;
                          c1 = (if target c = None then c\<lparr> target := Some (0, 0, 0) \<rparr> else c);
                          c2 = c1\<lparr> target := map_option (\<lambda>v. lerp v tgt t) (target c1) \<rparr>;
                          c3 = c2\<lparr> update_calls := Suc (update_calls c2) \<rparr>
                      in st2\<lparr> controls_objs := (controls_objs st2)(r := c3) \<rparr>)
                 | None \<Rightarrow>
                     st2\<lparr> cameras := (cameras st2)
                            (cam := (cameras st2 cam)\<lparr> cam_lookAt := Some tgt \<rparr>) \<rparr>))"

section \<open>Effects\<close>

text \<open>
  The effect with dependencies \<open>[highlightId, data.asteroids]\<close>. \<open>!highlightId\<close> holds
  for null, undefined and the empty string. When \<open>find\<close> returns nothing the effect does
  nothing.
\<close>

definition highlight_effect :: "Props \<Rightarrow> Scene \<Rightarrow> Scene" where
  "highlight_effect p st =
     (case highlightId p of
        None \<Rightarrow> st\<lparr> targetRef := None \<rparr>
      | Some h \<Rightarrow>
          if h = [] then st\<lparr> targetRef := None \<rparr>
          else (case find (\<lambda>a. id' a = h) (data p) of
                  Some found \<Rightarrow>
                    st\<lparr> targetRef := Some (multiplyScalar (position found) (scale (data p))) \<rparr>
                | None \<Rightarrow> st))"

text \<open>
  The flags of the controls are set to true only where
  \<open>typeof controls.enableRotate !== 'undefined'\<close>, respectively \<open>controls.enabled\<close>.
\<close>

definition enable_controls :: "Controls \<Rightarrow> Controls" where
  "enable_controls c =
     (let c1 = (if enableRotate c \<noteq> None then c\<lparr> enableRotate := Some True \<rparr> else c)
      in if enabled c1 \<noteq> None then c1\<lparr> enabled := Some True \<rparr> else c1)"

text \<open>
  The effect with dependencies \<open>[resetSignal, camera, controls]\<close>, as created by the render
  that read \<open>p\<close>: it works on the camera and the controls object of that render. Its
  result carries in \<open>cleanup\<close> the timeout that the returned cleanup function clears; when
  \<open>resetSignal\<close> is not a number the effect returns no cleanup function.
\<close>

definition reset_effect :: "Props \<Rightarrow> Scene \<Rightarrow> Scene" where
  "reset_effect p st =
     (case resetSignal p of
        None \<Rightarrow> st\<lparr> cleanup := None \<rparr>
      | Some n \<Rightarrow>
          (let origin = (0, 0, 0);
               s = scale (data p);
               st1 = st\<lparr> targetRef := Some (multiplyScalar origin 1) \<rparr>;
               desired = (0, 20 * max 1 s, 40 * max 1 s);
               cam = camera_ref p;
               st2 = st1\<lparr> cameras := (cameras st1)
                         (cam := (cameras st1 cam)\<lparr> cam_position := desired \<rparr>) \<rparr>;
               st3 = (case controls_ref p of
                        Some r \<Rightarrow>
                          (let c = controls_objs st2 r;
                               c1 = enable_controls (c\<lparr> target := Some origin \<rparr>)
                           in st2\<lparr> controls_objs := (controls_objs st2)
                                  (r := c1\<lparr> update_calls := Suc (update_calls c1) \<rparr>) \<rparr>)
                      | None \<Rightarrow>
                          st2\<lparr> cameras := (cameras st2)
                                 (cam := (cameras st2 cam)\<lparr> cam_lookAt := Some origin \<rparr>) \<rparr>);
               (timeout, st4) = setTimeout 600 st3
           in st4\<lparr> cleanup := Some timeout \<rparr>))"

text \<open>The cleanup function of the reset effect: \<open>() => clearTimeout(timeout)\<close>.\<close>

definition run_cleanup :: "Scene \<Rightarrow> Scene" where
  "run_cleanup st =
     (case cleanup st of
        None \<Rightarrow> st
      | Some timeout \<Rightarrow> (clearTimeout timeout st)\<lparr> cleanup := None \<rparr>)"

section \<open>Mounting and re-rendering\<close>

text \<open>
  React runs every effect after the first render. After a later render it runs the effects
  of which a dependency changed: first the cleanup functions of those effects, then their
  bodies in the order of declaration. Dependencies are compared with \<open>Object.is\<close>: the
  string and the number by value, the array, the camera and the controls object by identity.
\<close>

definition mount :: "Props \<Rightarrow> Scene \<Rightarrow> Scene" where
  "mount p st = reset_effect p (highlight_effect p (st\<lparr> props := p \<rparr>))"

definition rerender :: "Props \<Rightarrow> Scene \<Rightarrow> Scene" where
  "rerender p st =
     (let old = props st;
          highlight_changed =
            (highlightId p \<noteq> highlightId old \<or> data_ref p \<noteq> data_ref old);
          reset_changed =
            (resetSignal p \<noteq> resetSignal old \<or> camera_ref p \<noteq> camera_ref old
             \<or> controls_ref p \<noteq> controls_ref old);
          st1 = st\<lparr> props := p \<rparr>;
          st2 = (if reset_changed then run_cleanup st1 else st1);
          st3 = (if highlight_changed then highlight_effect p st2 else st2)
      in if reset_changed then reset_effect p st3 else st3)"

text \<open>Unmounting runs the cleanup function of the reset effect.\<close>

definition unmount :: "Scene \<Rightarrow> Scene" where
  "unmount st = run_cleanup st"

text \<open>
  The state before the first render as \<open>App\<close> sets it up: \<open>useRef(null)\<close> for the target,
  the \<open>Canvas\<close> camera at \<open>[0, 20, 20]\<close>, controls objects with content \<open>c\<close>, no
  timeout pending. Its \<open>props\<close> are a placeholder that mounting overwrites.
\<close>

definition initial :: "Controls \<Rightarrow> Scene" where
  "initial c =
     \<lparr> props = \<lparr> data = [], highlightId = None, resetSignal = None,
                 data_ref = 0, camera_ref = 0, controls_ref = None \<rparr>,
       targetRef = None,
       cameras = (\<lambda>r. \<lparr> cam_position = (0, 20, 20), cam_lookAt = None \<rparr>),
       controls_objs = (\<lambda>r. c),
       rotation_y = 0,
       now = 0,
       timers = [],
       next_id = 0,
       cleanup = None \<rparr>"

text \<open>
  What the first render of the component reads in \<open>App\<close>: \<open>useState(0)\<close> for the reset
  signal and no selected asteroid. \<open>OrbitControls\<close> mounts in the same commit as the
  component, so \<open>controlsRef.current\<close> is still null in this render, and no default
  controls are registered: \<open>controls\<close> is missing. In the renders that follow
  \<open>controlsRef.current\<close> is the \<open>OrbitControls\<close> object.
\<close>

definition App_props :: "Asteroid list \<Rightarrow> Props" where
  "App_props asteroids =
     \<lparr> data = asteroids, highlightId = None, resetSignal = Some 0,
       data_ref = 0, camera_ref = 0, controls_ref = None \<rparr>"

text \<open>Events after mounting, and runs of them.\<close>

datatype event = Render Props | Frame | Elapse nat

fun step :: "Scene \<Rightarrow> event \<Rightarrow> Scene" where
  "step st (Render p) = rerender p st"
| "step st Frame = useFrame st"
| "step st (Elapse d) = elapse d st"

definition run :: "event list \<Rightarrow> Scene \<Rightarrow> Scene" where
  "run evs st = foldl step st evs"

text \<open>A run without signals: frames and passing time only; \<open>elapsed\<close> is its duration.\<close>

fun quiet :: "event list \<Rightarrow> bool" where
  "quiet [] = True"
| "quiet (Render p # evs) = False"
| "quiet (Frame # evs) = quiet evs"
| "quiet (Elapse d # evs) = quiet evs"

fun elapsed :: "event list \<Rightarrow> nat" where
  "elapsed [] = 0"
| "elapsed (Elapse d # evs) = d + elapsed evs"
| "elapsed (ev # evs) = elapsed evs"

text \<open>
  The invariant of the timers: at most one timeout is pending, and it is the one the stored
  cleanup function clears.
\<close>

definition timers_inv :: "Scene \<Rightarrow> bool" where
  "timers_inv st =
     (list_all (\<lambda>(i, due). cleanup st = Some i) (timers st) \<and> length (timers st) \<le> 1)"

section \<open>Sample data\<close>

text \<open>
  A scene of one asteroid at raw position \<open>[100, 0, 0]\<close>, with three orbit points, used
  to evaluate the definitions at concrete inputs.
\<close>

definition sample :: Asteroid where
  "sample = \<lparr> id' = ''a1'', name = ''Ceres'', position = (100, 0, 0), size' = 1,
              orbit = [(100, 0, 0), (0, 0, 100), (-100, 0, 0)] \<rparr>"

text \<open>
  The content of the \<open>OrbitControls\<close> object, with rotation switched off and no target
  yet, and the scene as \<open>App\<close> mounts it. \<open>sample_app\<close> is what the renders after the
  first read: \<open>controlsRef.current\<close> is now the \<open>OrbitControls\<close> object, reference 0.
  The other props select the asteroid, press reset once or twice, or select an id that no
  asteroid has. \<open>sample_idle\<close> is the scene one second after the second render,
  \<open>sample_focused\<close> the scene after the asteroid is selected then.
\<close>

definition sample_controls :: Controls where
  "sample_controls = \<lparr> target = None, enableRotate = Some False, enabled = Some True,
                       update_calls = 0 \<rparr>"

definition sample_mounted :: Scene where
  "sample_mounted = mount (App_props [sample]) (initial sample_controls)"

definition sample_app :: Props where
  "sample_app = (App_props [sample])\<lparr> controls_ref := Some 0 \<rparr>"

definition sample_idle :: Scene where
  "sample_idle = elapse 1000 (rerender sample_app sample_mounted)"

definition sample_select :: Props where
  "sample_select = sample_app\<lparr> highlightId := Some ''a1'' \<rparr>"

definition sample_focused :: Scene where
  "sample_focused = rerender sample_select sample_idle"

definition sample_reset :: Props where
  "sample_reset = sample_select\<lparr> resetSignal := Some 1 \<rparr>"

definition sample_home :: Props where
  "sample_home = sample_app\<lparr> resetSignal := Some 1 \<rparr>"

definition sample_home_select :: Props where
  "sample_home_select = sample_home\<lparr> highlightId := Some ''a1'' \<rparr>"

definition sample_unknown :: Props where
  "sample_unknown = sample_select\<lparr> highlightId := Some ''zz'' \<rparr>"

definition sample_home2 :: Props where
  "sample_home2 = sample_home\<lparr> resetSignal := Some 2 \<rparr>"

section \<open>Properties of the scale normalizer\<close>

lemma foldl_max_ge: "a \<le> foldl (\<lambda>m p. max m (vlength p)) a pts"
proof (induction pts arbitrary: a)
  case Nil
  show ?case by simp
next
  case (Cons p pts)
  have "a \<le> max a (vlength p)" by simp
  also have "\<dots> \<le> foldl (\<lambda>m p. max m (vlength p)) (max a (vlength p)) pts" by (rule Cons.IH)
  finally show ?case by simp
qed

lemma maxDist_pos: "0 < maxDist asteroids"
proof -
  have "0 \<le> foldl (\<lambda>m p. max m (vlength p)) 0 (map position asteroids)"
    by (rule foldl_max_ge)
  then show ?thesis by (auto simp: maxDist_def Let_def)
qed

lemma scale_eq: "scale asteroids = max 0.02 (min (30 / maxDist asteroids) 5)"
  using maxDist_pos [of asteroids] by (simp add: scale_def Let_def)

lemma scale_lower: "0.02 \<le> scale asteroids"
  by (simp add: scale_eq)

lemma scale_upper: "scale asteroids \<le> 5"
  by (simp add: scale_eq)

lemma scale_antimono:
  assumes "maxDist as \<le> maxDist bs"
  shows "scale bs \<le> scale as"
proof -
  have "30 / maxDist bs \<le> 30 / maxDist as"
    using assms maxDist_pos [of as] by (simp add: frac_le)
  then show ?thesis unfolding scale_eq by (auto simp: min_def max_def)
qed

lemma vlength_double: "vlength (multiplyScalar p 2) = 2 * vlength p"
proof (cases p)
  case (fields x y z)
  have "(x * 2) * (x * 2) + (y * 2) * (y * 2) + (z * 2) * (z * 2) = 4 * (x * x + y * y + z * z)"
    by (simp add: algebra_simps)
  then have "vlength (multiplyScalar p 2) = sqrt (4 * (x * x + y * y + z * z))"
    using fields by simp
  also have "\<dots> = sqrt 4 * sqrt (x * x + y * y + z * z)" by (rule real_sqrt_mult)
  also have "sqrt 4 = (2::real)" using real_sqrt_abs [of 2] by simp
  finally show ?thesis using fields by simp
qed

lemma foldl_max_double:
  "foldl (\<lambda>m p. max m (vlength p)) (2 * a) (map (\<lambda>p. multiplyScalar p 2) pts)
     = 2 * foldl (\<lambda>m p. max m (vlength p)) a pts"
proof (induction pts arbitrary: a)
  case Nil
  show ?case by simp
next
  case (Cons p pts)
  have "max (2 * a) (vlength (multiplyScalar p 2)) = 2 * max a (vlength p)"
    by (simp add: vlength_double max_def)
  then show ?case using Cons.IH [of "max a (vlength p)"] by simp
qed

lemma maxDist_double:
  "maxDist asteroids \<le> maxDist (map (\<lambda>a. a\<lparr> position := multiplyScalar (position a) 2 \<rparr>) asteroids)"
proof -
  let ?m = "foldl (\<lambda>m p. max m (vlength p)) 0 (map position asteroids)"
  have pts: "map position (map (\<lambda>a. a\<lparr> position := multiplyScalar (position a) 2 \<rparr>) asteroids)
               = map (\<lambda>p. multiplyScalar p 2) (map position asteroids)"
    by (simp add: comp_def)
  have "foldl (\<lambda>m p. max m (vlength p)) 0 (map (\<lambda>p. multiplyScalar p 2) (map position asteroids)) = 2 * ?m"
    using foldl_max_double [of 0 "map position asteroids"] by simp
  moreover have "0 \<le> ?m" by (rule foldl_max_ge)
  ultimately show ?thesis unfolding maxDist_def Let_def pts by auto
qed



lemma maxDist_single: "maxDist [a\<lparr> position := (100, 0, 0) \<rparr>] = 100"
  by (simp add: maxDist_def)

lemma scale_single: "scale [a\<lparr> position := (100, 0, 0) \<rparr>] = 3 / 10"
  by (simp add: scale_eq maxDist_single)

lemma sample_upd: "sample = sample\<lparr> position := (100, 0, 0) \<rparr>"
  by (simp add: sample_def)

lemma scale_sample: "scale [sample] = 3 / 10"
  using scale_single [of sample] sample_upd by simp

lemma maxDist_sample2: "maxDist [sample\<lparr> position := (200, 0, 0) \<rparr>] = 200"
  by (simp add: maxDist_def)

section \<open>Claims on the scale normalizer and the render projector\<close>

text \<open>
  C1. For an empty entity collection the \<open>useMemo\<close> does not return 1: the fold gives 0,
  \<open>|| 1\<close> makes \<open>maxDist\<close> 1, so the branch \<open>maxDist > 0\<close> is taken, \<open>s\<close> is
  \<open>30 / 1\<close>, and the clamp returns 5. The branch \<open>: 1\<close> of the conditional is never reached.
\<close>

theorem scale_empty_is_5: "maxDist [] = 1 \<and> scale [] = 5"
  by (simp add: scale_def maxDist_def)

text \<open>
  C8. For every non-empty list of asteroids the scale factor lies in \<open>[0.02, 5]\<close>, is
  non-negative, and depends on the positions only: two lists with the same positions have
  the same scale.
\<close>

theorem scale_in_range:
  assumes "asteroids \<noteq> []"
  shows "0.02 \<le> scale asteroids \<and> scale asteroids \<le> 5 \<and> 0 \<le> scale asteroids
         \<and> (map position asteroids = map position others \<longrightarrow> scale asteroids = scale others)"
proof -
  have "0 \<le> scale asteroids" using scale_lower [of asteroids] by simp
  moreover have "map position asteroids = map position others \<longrightarrow> scale asteroids = scale others"
    by (simp add: scale_def maxDist_def)
  ultimately show ?thesis using scale_lower scale_upper by simp
qed

theorem scale_in_range_witness:
  "[sample] \<noteq> [] \<and> 0.02 \<le> scale [sample] \<and> scale [sample] \<le> 5 \<and> 0 \<le> scale [sample]
   \<and> map position [sample] = map position [sample\<lparr> name := ''Vesta'' \<rparr>]
   \<and> scale [sample] = scale [sample\<lparr> name := ''Vesta'' \<rparr>]"
  using scale_in_range [of "[sample]" "[sample\<lparr> name := ''Vesta'' \<rparr>]"] by simp

text \<open>
  C9. The scale factor is monotone non-increasing in \<open>maxDist\<close>, and doubling every
  position does not increase it.
\<close>

theorem scale_monotone:
  "(maxDist as \<le> maxDist bs \<longrightarrow> scale bs \<le> scale as)
   \<and> scale (map (\<lambda>a. a\<lparr> position := multiplyScalar (position a) 2 \<rparr>) as) \<le> scale as"
  using scale_antimono [of as bs] scale_antimono [OF maxDist_double [of as]] by simp

theorem scale_monotone_witness:
  "maxDist [sample] \<le> maxDist [sample\<lparr> position := (200, 0, 0) \<rparr>]
   \<and> scale [sample\<lparr> position := (200, 0, 0) \<rparr>] \<le> scale [sample]
   \<and> scale (map (\<lambda>a. a\<lparr> position := multiplyScalar (position a) 2 \<rparr>) [sample]) \<le> scale [sample]"
proof -
  have "maxDist [sample] = 100" using maxDist_single [of sample] sample_upd by simp
  then have "maxDist [sample] \<le> maxDist [sample\<lparr> position := (200, 0, 0) \<rparr>]"
    by (simp add: maxDist_sample2)
  then show ?thesis
    using scale_monotone [of "[sample]" "[sample\<lparr> position := (200, 0, 0) \<rparr>]"] by simp
qed

text \<open>
  C6. The render projection multiplies each coordinate of the position and of every orbit
  point by the scale; the orbit keeps its length and its order. A scene of one asteroid at
  \<open>[100, 0, 0]\<close> has \<open>maxDist\<close> 100, scale \<open>30 / 100\<close> and projected position
  \<open>[30, 0, 0]\<close>.
\<close>

theorem render_scale_linear:
  "sphere_position (render_asteroid h s a)
     = (fst (position a) * s, fst (snd (position a)) * s, snd (snd (position a)) * s)
   \<and> length (line_points (render_asteroid h s a)) = length (orbit a)
   \<and> (\<forall>i < length (orbit a).
        line_points (render_asteroid h s a) ! i
          = (fst (orbit a ! i) * s, fst (snd (orbit a ! i)) * s, snd (snd (orbit a ! i)) * s))
   \<and> render_asteroids asteroids h = map (render_asteroid h (scale asteroids)) asteroids
   \<and> maxDist [a\<lparr> position := (100, 0, 0) \<rparr>] = 100
   \<and> scale [a\<lparr> position := (100, 0, 0) \<rparr>] = 30 / 100
   \<and> map sphere_position (render_asteroids [a\<lparr> position := (100, 0, 0) \<rparr>] h) = [(30, 0, 0)]"
proof -
  obtain x y z where p: "position a = (x, y, z)" by (cases "position a") auto
  have 1: "sphere_position (render_asteroid h s a)
     = (fst (position a) * s, fst (snd (position a)) * s, snd (snd (position a)) * s)"
    by (simp add: render_asteroid_def Let_def p)
  have 2: "length (line_points (render_asteroid h s a)) = length (orbit a)"
    by (simp add: render_asteroid_def Let_def orbit_points_def)
  have 3: "\<forall>i < length (orbit a).
        line_points (render_asteroid h s a) ! i
          = (fst (orbit a ! i) * s, fst (snd (orbit a ! i)) * s, snd (snd (orbit a ! i)) * s)"
    by (simp add: render_asteroid_def Let_def orbit_points_def split: prod.splits)
  have 4: "map sphere_position (render_asteroids [a\<lparr> position := (100, 0, 0) \<rparr>] h) = [(30, 0, 0)]"
    by (simp add: render_asteroids_def render_asteroid_def Let_def scale_single)
  have 5: "render_asteroids asteroids h = map (render_asteroid h (scale asteroids)) asteroids"
    by (simp add: render_asteroids_def)
  have 6: "maxDist [a\<lparr> position := (100, 0, 0) \<rparr>] = 100"
    by (rule maxDist_single)
  have 7: "scale [a\<lparr> position := (100, 0, 0) \<rparr>] = 30 / 100"
    by (simp add: scale_single)
  show ?thesis by (intro conjI; fact)
qed

theorem render_scale_linear_witness:
  "(1::nat) < length (orbit sample)
   \<and> line_points (render_asteroid None (scale [sample]) sample) ! 1 = (0, 0, 30)
   \<and> length (line_points (render_asteroid None (scale [sample]) sample)) = 3
   \<and> sphere_position (render_asteroid None (scale [sample]) sample) = (30, 0, 0)"
proof -
  have "(1::nat) < length (orbit sample)" by (simp add: sample_def)
  moreover have "orbit sample ! 1 = (0, 0, 100)" "position sample = (100, 0, 0)"
                "length (orbit sample) = 3"
    by (simp_all add: sample_def)
  ultimately show ?thesis
    using render_scale_linear [of None "scale [sample]" sample "[sample]"]
    by (simp add: scale_sample)
qed

section \<open>Properties of the effects, the timers and the frame callback\<close>

lemma highlight_effect_frame:
  "timers (highlight_effect p st) = timers st"
  "now (highlight_effect p st) = now st"
  "next_id (highlight_effect p st) = next_id st"
  "cleanup (highlight_effect p st) = cleanup st"
  "cameras (highlight_effect p st) = cameras st"
  "controls_objs (highlight_effect p st) = controls_objs st"
  "props (highlight_effect p st) = props st"
  "rotation_y (highlight_effect p st) = rotation_y st"
  by (simp_all add: highlight_effect_def split: option.splits)

lemma run_cleanup_frame:
  "now (run_cleanup st) = now st"
  "next_id (run_cleanup st) = next_id st"
  "cameras (run_cleanup st) = cameras st"
  "controls_objs (run_cleanup st) = controls_objs st"
  "props (run_cleanup st) = props st"
  "targetRef (run_cleanup st) = targetRef st"
  by (simp_all add: run_cleanup_def clearTimeout_def split: option.splits)

lemma run_cleanup_timers:
  "timers (run_cleanup st) =
     (case cleanup st of None \<Rightarrow> timers st
      | Some tid \<Rightarrow> filter (\<lambda>(i, due). i \<noteq> tid) (timers st))"
  by (simp add: run_cleanup_def clearTimeout_def split: option.splits)

lemma run_cleanup_inv:
  assumes "timers_inv st"
  shows "timers (run_cleanup st) = []"
proof (cases "cleanup st")
  case None
  then show ?thesis using assms
    by (cases "timers st") (auto simp: timers_inv_def run_cleanup_timers)
next
  case (Some tid)
  have "\<forall>tm \<in> set (timers st). fst tm = tid"
    using assms Some by (auto simp: timers_inv_def list_all_iff)
  then have "filter (\<lambda>(i, due). i \<noteq> tid) (timers st) = []"
    by (auto simp: filter_empty_conv)
  then show ?thesis using Some by (simp add: run_cleanup_timers)
qed

lemma reset_effect_fields:
  assumes "resetSignal p = Some n"
  shows "targetRef (reset_effect p st) = Some (0, 0, 0)"
    and "cam_position (cameras (reset_effect p st) (camera_ref p))
           = (0, 20 * max 1 (scale (data p)), 40 * max 1 (scale (data p)))"
    and "timers (reset_effect p st) = timers st @ [(next_id st, now st + 600)]"
    and "cleanup (reset_effect p st) = Some (next_id st)"
    and "now (reset_effect p st) = now st"
    and "next_id (reset_effect p st) = Suc (next_id st)"
    and "props (reset_effect p st) = props st"
  using assms
  by (simp_all add: reset_effect_def setTimeout_def Let_def split: option.splits)

lemma reset_effect_controls:
  assumes "resetSignal p = Some n"
  shows "map_option (controls_objs (reset_effect p st)) (controls_ref p) =
           map_option (\<lambda>r. (enable_controls ((controls_objs st r)\<lparr> target := Some (0, 0, 0) \<rparr>))
               \<lparr> update_calls := Suc (update_calls (controls_objs st r)) \<rparr>) (controls_ref p)"
  using assms
  by (simp add: reset_effect_def setTimeout_def enable_controls_def Let_def split: option.splits)

lemma reset_effect_lookAt:
  assumes "resetSignal p = Some n"
  shows "cam_lookAt (cameras (reset_effect p st) (camera_ref p)) =
           (if controls_ref p = None then Some (0, 0, 0)
            else cam_lookAt (cameras st (camera_ref p)))"
  using assms
  by (simp add: reset_effect_def setTimeout_def Let_def split: option.splits)

lemma enable_controls_fields:
  "enableRotate (enable_controls c) = map_option (\<lambda>b. True) (enableRotate c)"
  "enabled (enable_controls c) = map_option (\<lambda>b. True) (enabled c)"
  "target (enable_controls c) = target c"
  "update_calls (enable_controls c) = update_calls c"
  by (auto simp: enable_controls_def Let_def)

lemma fold_callback:
  "fold (\<lambda>tm. timeout_callback) xs st = (if xs = [] then st else st\<lparr> targetRef := None \<rparr>)"
  by (induction xs arbitrary: st) (auto simp: timeout_callback_def)

lemma elapse_fields:
  "now (elapse d st) = now st + d"
  "timers (elapse d st) = filter (\<lambda>tm. \<not> is_due (now st + d) tm) (timers st)"
  "targetRef (elapse d st) =
     (if filter (is_due (now st + d)) (timers st) = [] then targetRef st else None)"
  "cleanup (elapse d st) = cleanup st"
  "next_id (elapse d st) = next_id st"
  "props (elapse d st) = props st"
  "cameras (elapse d st) = cameras st"
  "controls_objs (elapse d st) = controls_objs st"
  by (simp_all add: elapse_def Let_def fold_callback)

lemma useFrame_frame:
  "targetRef (useFrame st) = targetRef st"
  "timers (useFrame st) = timers st"
  "now (useFrame st) = now st"
  "cleanup (useFrame st) = cleanup st"
  "next_id (useFrame st) = next_id st"
  "props (useFrame st) = props st"
  by (simp_all add: useFrame_def Let_def split: option.splits)

text \<open>
  A render with a changed dependency of the reset effect, and one with none changed.
\<close>

lemma rerender_rerun:
  assumes "resetSignal p \<noteq> resetSignal (props st) \<or> camera_ref p \<noteq> camera_ref (props st)
           \<or> controls_ref p \<noteq> controls_ref (props st)"
  shows "rerender p st =
           reset_effect p
             ((if highlightId p \<noteq> highlightId (props st) \<or> data_ref p \<noteq> data_ref (props st)
               then highlight_effect p else (\<lambda>s. s)) (run_cleanup (st\<lparr> props := p \<rparr>)))"
  using assms by (auto simp: rerender_def Let_def)

lemma rerender_reset:
  assumes "resetSignal p = Some n" and "resetSignal (props st) \<noteq> Some n"
  shows "rerender p st =
           reset_effect p
             ((if highlightId p \<noteq> highlightId (props st) \<or> data_ref p \<noteq> data_ref (props st)
               then highlight_effect p else (\<lambda>s. s)) (run_cleanup (st\<lparr> props := p \<rparr>)))"
proof -
  have "resetSignal p \<noteq> resetSignal (props st)" using assms by auto
  then show ?thesis using rerender_rerun [of p st] by simp
qed

lemma rerender_highlight:
  assumes "resetSignal p = resetSignal (props st)"
    and "camera_ref p = camera_ref (props st)"
    and "controls_ref p = controls_ref (props st)"
  shows "rerender p st =
           (if highlightId p \<noteq> highlightId (props st) \<or> data_ref p \<noteq> data_ref (props st)
            then highlight_effect p (st\<lparr> props := p \<rparr>) else st\<lparr> props := p \<rparr>)"
  using assms by (simp add: rerender_def Let_def)

lemma run_Cons: "run (ev # evs) st = run evs (step st ev)"
  by (simp add: run_def)

lemma run_Nil: "run [] st = st"
  by (simp add: run_def)

lemma quiet_keeps_None:
  "quiet evs \<Longrightarrow> targetRef st = None \<Longrightarrow> targetRef (run evs st) = None"
proof (induction evs arbitrary: st)
  case Nil
  then show ?case by (simp add: run_Nil)
next
  case (Cons ev evs)
  then show ?case
    by (cases ev) (simp_all add: run_Cons useFrame_frame elapse_fields)
qed

lemma quiet_fires:
  "quiet evs \<Longrightarrow> (i, w) \<in> set (timers st) \<Longrightarrow> now st < w \<Longrightarrow> w \<le> now st + elapsed evs
     \<Longrightarrow> targetRef (run evs st) = None"
proof (induction evs arbitrary: st)
  case Nil
  then show ?case by simp
next
  case (Cons ev evs)
  show ?case
  proof (cases ev)
    case (Render p)
    then show ?thesis using Cons.prems by simp
  next
    case Frame
    then show ?thesis using Cons.prems Cons.IH [of "useFrame st"]
      by (simp add: run_Cons useFrame_frame)
  next
    case (Elapse d)
    show ?thesis
    proof (cases "w \<le> now st + d")
      case True
      then have "(i, w) \<in> set (filter (is_due (now st + d)) (timers st))"
        using Cons.prems by (simp add: is_due_def)
      then have "filter (is_due (now st + d)) (timers st) \<noteq> []"
        by (metis empty_iff list.set(1))
      then have "targetRef (elapse d st) = None" by (simp add: elapse_fields)
      then show ?thesis using Elapse Cons.prems quiet_keeps_None [of evs "elapse d st"]
        by (simp add: run_Cons)
    next
      case False
      then have "(i, w) \<in> set (timers (elapse d st))"
        using Cons.prems by (simp add: elapse_fields is_due_def)
      moreover have "now (elapse d st) < w" using False by (simp add: elapse_fields)
      moreover have "w \<le> now (elapse d st) + elapsed evs"
        using Cons.prems Elapse by (simp add: elapse_fields)
      ultimately show ?thesis using Elapse Cons.prems Cons.IH [of "elapse d st"]
        by (simp add: run_Cons)
    qed
  qed
qed

lemma quiet_no_fire:
  "quiet evs \<Longrightarrow> \<forall>tm \<in> set (timers st). now st + elapsed evs < snd tm
     \<Longrightarrow> targetRef (run evs st) = targetRef st \<and> timers (run evs st) = timers st
         \<and> now (run evs st) = now st + elapsed evs"
proof (induction evs arbitrary: st)
  case Nil
  then show ?case by (simp add: run_Nil)
next
  case (Cons ev evs)
  show ?case
  proof (cases ev)
    case (Render p)
    then show ?thesis using Cons.prems by simp
  next
    case Frame
    then show ?thesis using Cons.prems Cons.IH [of "useFrame st"]
      by (simp add: run_Cons useFrame_frame)
  next
    case (Elapse d)
    have nodue: "\<forall>tm \<in> set (timers st). \<not> is_due (now st + d) tm"
      using Cons.prems Elapse by (fastforce simp: is_due_def)
    then have keep: "filter (\<lambda>tm. \<not> is_due (now st + d) tm) (timers st) = timers st"
      and none: "filter (is_due (now st + d)) (timers st) = []"
      by (simp_all add: filter_empty_conv)
    have "\<forall>tm \<in> set (timers (elapse d st)). now (elapse d st) + elapsed evs < snd tm"
      using Cons.prems Elapse by (simp add: elapse_fields keep add.assoc)
    then show ?thesis using Elapse Cons.prems Cons.IH [of "elapse d st"]
      by (simp add: run_Cons elapse_fields keep none add.assoc)
  qed
qed

lemma timers_inv_reset_effect:
  assumes "timers st = []"
  shows "timers_inv (reset_effect p st)"
proof (cases "resetSignal p")
  case None
  then show ?thesis using assms by (simp add: reset_effect_def timers_inv_def)
next
  case (Some n)
  then show ?thesis using assms by (simp add: reset_effect_fields timers_inv_def)
qed

lemma timers_inv_mount: "timers_inv (mount p (initial c))"
  unfolding mount_def
  by (rule timers_inv_reset_effect) (simp add: highlight_effect_frame initial_def)

lemma timers_inv_rerender:
  assumes "timers_inv st"
  shows "timers_inv (rerender p st)"
proof (cases "resetSignal p \<noteq> resetSignal (props st) \<or> camera_ref p \<noteq> camera_ref (props st)
              \<or> controls_ref p \<noteq> controls_ref (props st)")
  case False
  have "timers_inv (st\<lparr> props := p \<rparr>)" using assms by (simp add: timers_inv_def)
  moreover have "timers_inv (highlight_effect p (st\<lparr> props := p \<rparr>))"
    using assms by (simp add: timers_inv_def highlight_effect_frame)
  ultimately show ?thesis using False by (simp add: rerender_highlight)
next
  case True
  have "timers_inv (st\<lparr> props := p \<rparr>)" using assms by (simp add: timers_inv_def)
  then have e: "timers (run_cleanup (st\<lparr> props := p \<rparr>)) = []" by (rule run_cleanup_inv)
  then have "timers (highlight_effect p (run_cleanup (st\<lparr> props := p \<rparr>))) = []"
    by (simp add: highlight_effect_frame)
  with e show ?thesis unfolding rerender_rerun [OF True]
    by (auto intro: timers_inv_reset_effect)
qed

lemma timers_inv_elapse:
  assumes "timers_inv st"
  shows "timers_inv (elapse d st)"
proof -
  have "length (filter (\<lambda>tm. \<not> is_due (now st + d) tm) (timers st)) \<le> length (timers st)"
    by (rule length_filter_le)
  moreover have "length (timers st) \<le> 1" using assms by (simp add: timers_inv_def)
  ultimately have "length (filter (\<lambda>tm. \<not> is_due (now st + d) tm) (timers st)) \<le> 1"
    by (rule le_trans)
  then show ?thesis using assms
    by (auto simp: timers_inv_def elapse_fields list_all_iff)
qed

lemma timers_inv_useFrame:
  assumes "timers_inv st"
  shows "timers_inv (useFrame st)"
  using assms by (simp add: timers_inv_def useFrame_frame)

lemma timers_inv_run:
  "timers_inv st \<Longrightarrow> timers_inv (run evs st)"
proof (induction evs arbitrary: st)
  case Nil
  then show ?case by (simp add: run_Nil)
next
  case (Cons ev evs)
  have "timers_inv (step st ev)"
    using Cons.prems
    by (cases ev) (simp_all add: timers_inv_rerender timers_inv_useFrame timers_inv_elapse)
  then show ?case using Cons.IH by (simp add: run_Cons)
qed

text \<open>
  What a render does that re-runs the reset effect with a number as reset signal: after a
  change of the signal itself, or of the camera or the controls object.
\<close>

lemma rerender_rerun_fields:
  assumes "resetSignal p = Some n"
    and "resetSignal p \<noteq> resetSignal (props st) \<or> camera_ref p \<noteq> camera_ref (props st)
         \<or> controls_ref p \<noteq> controls_ref (props st)"
  shows "targetRef (rerender p st) = Some (0, 0, 0)"
    and "cam_position (camera (rerender p st))
           = (0, 20 * max 1 (scale (data p)), 40 * max 1 (scale (data p)))"
    and "cleanup (rerender p st) = Some (next_id st)"
    and "now (rerender p st) = now st"
    and "next_id (rerender p st) = Suc (next_id st)"
    and "props (rerender p st) = p"
    and "timers (rerender p st) = timers (run_cleanup st) @ [(next_id st, now st + 600)]"
    and "controls (rerender p st) =
           map_option (\<lambda>c. (enable_controls (c\<lparr> target := Some (0, 0, 0) \<rparr>))
               \<lparr> update_calls := Suc (update_calls c) \<rparr>) (controls (st\<lparr> props := p \<rparr>))"
    and "cam_lookAt (camera (rerender p st)) =
           (if controls_ref p = None then Some (0, 0, 0)
            else cam_lookAt (camera (st\<lparr> props := p \<rparr>)))"
proof -
  let ?m = "(if highlightId p \<noteq> highlightId (props st) \<or> data_ref p \<noteq> data_ref (props st)
               then highlight_effect p else (\<lambda>s. s)) (run_cleanup (st\<lparr> props := p \<rparr>))"
  have r: "rerender p st = reset_effect p ?m" using assms(2) by (rule rerender_rerun)
  have m: "props ?m = p" "now ?m = now st" "next_id ?m = next_id st"
    "cameras ?m = cameras st" "controls_objs ?m = controls_objs st"
    "timers ?m = timers (run_cleanup st)"
    by (simp_all add: highlight_effect_frame run_cleanup_frame run_cleanup_timers
          split: option.split)
  note f = reset_effect_fields [OF assms(1), of ?m]
  show "targetRef (rerender p st) = Some (0, 0, 0)" unfolding r by (rule f(1))
  show "cleanup (rerender p st) = Some (next_id st)" unfolding r by (simp only: f(4) m)
  show "now (rerender p st) = now st" unfolding r by (simp only: f(5) m)
  show "next_id (rerender p st) = Suc (next_id st)" unfolding r by (simp only: f(6) m)
  show pr: "props (rerender p st) = p" unfolding r by (simp only: f(7) m)
  show "timers (rerender p st) = timers (run_cleanup st) @ [(next_id st, now st + 600)]"
    unfolding r by (simp only: f(3) m)
  show "cam_position (camera (rerender p st))
           = (0, 20 * max 1 (scale (data p)), 40 * max 1 (scale (data p)))"
    unfolding camera_def pr unfolding r by (rule f(2))
  show "controls (rerender p st) =
           map_option (\<lambda>c. (enable_controls (c\<lparr> target := Some (0, 0, 0) \<rparr>))
               \<lparr> update_calls := Suc (update_calls c) \<rparr>) (controls (st\<lparr> props := p \<rparr>))"
    unfolding controls_def pr unfolding r reset_effect_controls [OF assms(1)] m(5)
    by (simp add: option.map_comp comp_def)
  show "cam_lookAt (camera (rerender p st)) =
           (if controls_ref p = None then Some (0, 0, 0)
            else cam_lookAt (camera (st\<lparr> props := p \<rparr>)))"
    unfolding camera_def pr unfolding r reset_effect_lookAt [OF assms(1)] m(4)
    by simp
qed

lemma rerender_rerun_timers_inv:
  assumes "resetSignal p = Some n"
    and "resetSignal p \<noteq> resetSignal (props st) \<or> camera_ref p \<noteq> camera_ref (props st)
         \<or> controls_ref p \<noteq> controls_ref (props st)"
    and "timers_inv st"
  shows "timers (rerender p st) = [(next_id st, now st + 600)]"
  using assms(3) by (simp add: rerender_rerun_fields(7) [OF assms(1,2)] run_cleanup_inv)

lemma reset_changes:
  assumes "resetSignal p = Some n" and "resetSignal (props st) \<noteq> Some n"
  shows "resetSignal p \<noteq> resetSignal (props st) \<or> camera_ref p \<noteq> camera_ref (props st)
         \<or> controls_ref p \<noteq> controls_ref (props st)"
  using assms by auto

lemmas rerender_reset_fields = rerender_rerun_fields [OF _ reset_changes]

lemma rerender_reset_timers_inv:
  assumes "resetSignal p = Some n" and "resetSignal (props st) \<noteq> Some n" and "timers_inv st"
  shows "timers (rerender p st) = [(next_id st, now st + 600)]"
  using rerender_rerun_timers_inv [OF assms(1) reset_changes [OF assms(1,2)] assms(3)] .


section \<open>The sample scene\<close>

lemma sample_mounted_fields:
  "props sample_mounted = App_props [sample]"
  "targetRef sample_mounted = Some (0, 0, 0)"
  "timers sample_mounted = [(0, 600)]"
  "now sample_mounted = 0"
  "next_id sample_mounted = 1"
  "cleanup sample_mounted = Some 0"
  "controls_objs sample_mounted = (\<lambda>r. sample_controls)"
  "timers_inv sample_mounted"
proof -
  have r: "resetSignal (App_props [sample]) = Some 0" by (simp add: App_props_def)
  show "props sample_mounted = App_props [sample]" "targetRef sample_mounted = Some (0, 0, 0)"
    "timers sample_mounted = [(0, 600)]" "now sample_mounted = 0" "next_id sample_mounted = 1"
    "cleanup sample_mounted = Some 0"
    by (simp_all add: sample_mounted_def mount_def reset_effect_fields [OF r]
          highlight_effect_frame initial_def)
  show "controls_objs sample_mounted = (\<lambda>r. sample_controls)"
    by (simp add: sample_mounted_def mount_def reset_effect_def setTimeout_def Let_def
          App_props_def highlight_effect_frame initial_def)
  show "timers_inv sample_mounted"
    unfolding sample_mounted_def by (rule timers_inv_mount)
qed

text \<open>
  The second render reads the controls object for the first time, which re-runs the reset
  effect: the timeout of the mount is cleared and a new one is armed.
\<close>

lemma sample_second_render:
  "props (rerender sample_app sample_mounted) = sample_app"
  "targetRef (rerender sample_app sample_mounted) = Some (0, 0, 0)"
  "timers (rerender sample_app sample_mounted) = [(1, 600)]"
  "now (rerender sample_app sample_mounted) = 0"
  "next_id (rerender sample_app sample_mounted) = 2"
  "cam_position (camera (rerender sample_app sample_mounted)) = (0, 20, 40)"
  "controls (rerender sample_app sample_mounted)
     = Some \<lparr> target = Some (0, 0, 0), enableRotate = Some True, enabled = Some True,
              update_calls = 1 \<rparr>"
proof -
  have r: "resetSignal sample_app = Some 0" by (simp add: sample_app_def App_props_def)
  have c: "resetSignal sample_app \<noteq> resetSignal (props sample_mounted)
           \<or> camera_ref sample_app \<noteq> camera_ref (props sample_mounted)
           \<or> controls_ref sample_app \<noteq> controls_ref (props sample_mounted)"
    by (simp add: sample_app_def App_props_def sample_mounted_fields)
  note f = rerender_rerun_fields [OF r c]
  show "props (rerender sample_app sample_mounted) = sample_app" by (rule f(6))
  show "targetRef (rerender sample_app sample_mounted) = Some (0, 0, 0)" by (rule f(1))
  show "timers (rerender sample_app sample_mounted) = [(1, 600)]"
    using rerender_rerun_timers_inv [OF r c sample_mounted_fields(8)]
    by (simp add: sample_mounted_fields)
  show "now (rerender sample_app sample_mounted) = 0" by (simp add: f(4) sample_mounted_fields)
  show "next_id (rerender sample_app sample_mounted) = 2"
    by (simp add: f(5) sample_mounted_fields)
  have "data sample_app = [sample]" by (simp add: sample_app_def App_props_def)
  then show "cam_position (camera (rerender sample_app sample_mounted)) = (0, 20, 40)"
    by (simp add: f(2) scale_sample)
  have "enable_controls (sample_controls\<lparr> target := Some (0, 0, 0) \<rparr>)
          = \<lparr> target = Some (0, 0, 0), enableRotate = Some True, enabled = Some True,
              update_calls = 0 \<rparr>"
    by (auto simp: enable_controls_def sample_controls_def Let_def)
  moreover have "update_calls sample_controls = 0" by (simp add: sample_controls_def)
  moreover have "controls (sample_mounted\<lparr> props := sample_app \<rparr>) = Some sample_controls"
    by (simp add: controls_def sample_mounted_fields sample_app_def)
  ultimately show "controls (rerender sample_app sample_mounted)
     = Some \<lparr> target = Some (0, 0, 0), enableRotate = Some True, enabled = Some True,
              update_calls = 1 \<rparr>"
    by (simp add: f(8))
qed

lemma sample_idle_fields:
  "props sample_idle = sample_app"
  "targetRef sample_idle = None"
  "timers sample_idle = []"
  "now sample_idle = 1000"
  "next_id sample_idle = 2"
  "timers_inv sample_idle"
  "camera sample_idle = camera (rerender sample_app sample_mounted)"
  "controls sample_idle = controls (rerender sample_app sample_mounted)"
proof -
  show "props sample_idle = sample_app" "targetRef sample_idle = None"
    "timers sample_idle = []" "now sample_idle = 1000" "next_id sample_idle = 2"
    by (simp_all add: sample_idle_def elapse_fields sample_second_render is_due_def)
  show "timers_inv sample_idle"
    unfolding sample_idle_def
    by (intro timers_inv_elapse timers_inv_rerender sample_mounted_fields(8))
  show "camera sample_idle = camera (rerender sample_app sample_mounted)"
    "controls sample_idle = controls (rerender sample_app sample_mounted)"
    by (simp_all add: sample_idle_def camera_def controls_def elapse_fields)
qed

lemma sample_select_same:
  "resetSignal sample_select = resetSignal (props sample_idle)"
  "camera_ref sample_select = camera_ref (props sample_idle)"
  "controls_ref sample_select = controls_ref (props sample_idle)"
  "highlightId sample_select \<noteq> highlightId (props sample_idle)"
  by (simp_all add: sample_select_def sample_idle_fields sample_app_def App_props_def)

lemma sample_focused_eq:
  "sample_focused = highlight_effect sample_select (sample_idle\<lparr> props := sample_select \<rparr>)"
  unfolding sample_focused_def
  using rerender_highlight [OF sample_select_same(1-3)] sample_select_same(4) by simp

lemma scale_sample_select: "scale (data sample_select) = 3 / 10"
  by (simp add: sample_select_def sample_app_def App_props_def scale_sample)

lemma sample_focused_fields:
  "props sample_focused = sample_select"
  "targetRef sample_focused = Some (30, 0, 0)"
  "timers sample_focused = []"
  "now sample_focused = 1000"
  "next_id sample_focused = 2"
  "timers_inv sample_focused"
proof -
  note e = sample_focused_eq
  show "props sample_focused = sample_select" by (simp add: e highlight_effect_frame)
  have "position sample = (100, 0, 0)" "id' sample = ''a1''" by (simp_all add: sample_def)
  moreover have "highlightId sample_select = Some ''a1''" "data sample_select = [sample]"
    by (simp_all add: sample_select_def sample_app_def App_props_def)
  ultimately show "targetRef sample_focused = Some (30, 0, 0)"
    by (simp add: e highlight_effect_def scale_sample)
  show "timers sample_focused = []" "now sample_focused = 1000" "next_id sample_focused = 2"
    by (simp_all add: e highlight_effect_frame sample_idle_fields)
  show "timers_inv sample_focused"
    unfolding sample_focused_def by (intro timers_inv_rerender sample_idle_fields(6))
qed

lemma sample_focused_controls:
  "controls sample_focused
     = Some \<lparr> target = Some (0, 0, 0), enableRotate = Some True, enabled = Some True,
              update_calls = 1 \<rparr>"
proof -
  have "controls sample_focused = controls sample_idle"
    by (simp add: sample_focused_eq controls_def highlight_effect_frame sample_select_same(3))
  then show ?thesis by (simp add: sample_idle_fields(8) sample_second_render(7))
qed

lemma sample_focused_camera: "cam_position (camera sample_focused) = (0, 20, 40)"
proof -
  have "camera sample_focused = camera sample_idle"
    by (simp add: sample_focused_eq camera_def highlight_effect_frame sample_select_same(2))
  then show ?thesis by (simp add: sample_idle_fields(7) sample_second_render(6))
qed

lemma sample_home_facts:
  "resetSignal sample_home = Some 1"
  "resetSignal (props sample_idle) \<noteq> Some 1"
  "resetSignal sample_home_select = Some 1"
  "highlightId sample_home_select = Some ''a1''"
  "data sample_home_select = [sample]"
  "find (\<lambda>a. id' a = ''a1'') (data sample_home_select) = Some sample"
  "highlightId sample_home_select \<noteq> highlightId sample_home"
  "position sample = (100, 0, 0)"
  "id' sample = ''a1''"
  "camera_ref sample_home_select = camera_ref sample_home"
  "controls_ref sample_home_select = controls_ref sample_home"
  by (simp_all add: sample_home_def sample_home_select_def sample_app_def App_props_def
        sample_idle_fields sample_def)

lemma sample_unknown_facts:
  "highlightId sample_unknown = Some ''zz''"
  "find (\<lambda>a. id' a = ''zz'') (data sample_unknown) = None"
  "resetSignal sample_unknown = resetSignal (props sample_focused)"
  "camera_ref sample_unknown = camera_ref (props sample_focused)"
  "controls_ref sample_unknown = controls_ref (props sample_focused)"
  "resetSignal sample_unknown = resetSignal (props sample_idle)"
  "camera_ref sample_unknown = camera_ref (props sample_idle)"
  "controls_ref sample_unknown = controls_ref (props sample_idle)"
  by (simp_all add: sample_unknown_def sample_select_def sample_app_def App_props_def sample_def
        sample_focused_fields sample_idle_fields)

section \<open>Claims on the camera target and the reset timer\<close>

text \<open>
  C2, amended. For a non-empty id that no asteroid has, the highlight effect does nothing: it
  neither clears nor sets the target. A render that changes the selection to such an id and
  reads the same reset signal, camera and controls object as the render before, so that the
  reset effect does not run, changes nothing but the stored props: the target, the camera,
  the controls and the timers are as before. With no focus there is no focus afterwards; an
  active focus is kept.
\<close>

theorem unknown_id_no_op:
  assumes "highlightId p = Some h" and "h \<noteq> []"
    and "find (\<lambda>a. id' a = h) (data p) = None"
  shows "highlight_effect p st = st
         \<and> (resetSignal p = resetSignal (props st) \<and> camera_ref p = camera_ref (props st)
              \<and> controls_ref p = controls_ref (props st) \<longrightarrow>
              rerender p st = st\<lparr> props := p \<rparr>
              \<and> targetRef (rerender p st) = targetRef st
              \<and> camera (rerender p st) = camera st
              \<and> controls (rerender p st) = controls st
              \<and> timers (rerender p st) = timers st)"
proof -
  have e: "highlight_effect p s = s" for s
    using assms by (simp add: highlight_effect_def)
  have "rerender p st = st\<lparr> props := p \<rparr>
        \<and> targetRef (rerender p st) = targetRef st
        \<and> camera (rerender p st) = camera st
        \<and> controls (rerender p st) = controls st
        \<and> timers (rerender p st) = timers st"
    if same: "resetSignal p = resetSignal (props st) \<and> camera_ref p = camera_ref (props st)
              \<and> controls_ref p = controls_ref (props st)"
  proof -
    have "rerender p st = st\<lparr> props := p \<rparr>"
      using rerender_highlight [of p st] same by (simp add: e)
    then show ?thesis using same by (simp add: camera_def controls_def)
  qed
  then show ?thesis using e by blast
qed

text \<open>C2, amended, at the sample scene with no focus.\<close>

theorem unknown_id_no_op_witness:
  "highlightId sample_unknown = Some ''zz'' \<and> ''zz'' \<noteq> []
   \<and> find (\<lambda>a. id' a = ''zz'') (data sample_unknown) = None
   \<and> resetSignal sample_unknown = resetSignal (props sample_idle)
   \<and> camera_ref sample_unknown = camera_ref (props sample_idle)
   \<and> controls_ref sample_unknown = controls_ref (props sample_idle)
   \<and> targetRef sample_idle = None
   \<and> targetRef (rerender sample_unknown sample_idle) = None
   \<and> rerender sample_unknown sample_idle = sample_idle\<lparr> props := sample_unknown \<rparr>"
proof -
  have h: "''zz'' \<noteq> []" by simp
  show ?thesis
    using unknown_id_no_op [OF sample_unknown_facts(1) h sample_unknown_facts(2), of sample_idle]
      sample_unknown_facts(6-8)
    by (simp add: sample_unknown_facts(1,2) sample_idle_fields(2))
qed

text \<open>
  C2 as stated fails: with the camera focused on the asteroid, a selection of the unknown id
  \<open>zz\<close> leaves the focus in place.
\<close>

theorem unknown_id_counterexample:
  "highlightId sample_unknown = Some ''zz''
   \<and> find (\<lambda>a. id' a = ''zz'') (data sample_unknown) = None
   \<and> targetRef sample_focused = Some (30, 0, 0)
   \<and> targetRef (rerender sample_unknown sample_focused) = Some (30, 0, 0)"
proof -
  have "highlight_effect sample_unknown (sample_focused\<lparr> props := sample_unknown \<rparr>)
          = sample_focused\<lparr> props := sample_unknown \<rparr>"
    by (simp add: highlight_effect_def sample_unknown_facts(1,2))
  then have "rerender sample_unknown sample_focused = sample_focused\<lparr> props := sample_unknown \<rparr>"
    using rerender_highlight [OF sample_unknown_facts(3-5)] by simp
  then show ?thesis by (simp add: sample_unknown_facts(1,2) sample_focused_fields(2))
qed




text \<open>
  C4. A render that changes the reset signal to a number, from any state: the camera
  position is set to \<open>(0, 20, 40) * max(1, scale)\<close> whatever it was before, the target
  becomes the origin, the controls object that this render reads (when there is one) gets the
  origin as target and every flag among \<open>enableRotate\<close> and \<open>enabled\<close> that is defined
  becomes true, and a timeout due 600 ms later is armed. After a run of frames and passing time that lasts 600 ms or more
  the target is null. From a state that satisfies the timer invariant that timeout is the only
  one pending, and the target stays the origin for the first 600 ms.
\<close>

theorem reset_signal_homing:
  assumes "resetSignal p = Some n" and "resetSignal (props st) \<noteq> Some n"
  shows "cam_position (camera (rerender p st))
           = (0, 20 * max 1 (scale (data p)), 40 * max 1 (scale (data p)))
         \<and> targetRef (rerender p st) = Some (0, 0, 0)
         \<and> (\<forall>c. controls (st\<lparr> props := p \<rparr>) = Some c \<longrightarrow>
               (\<exists>c'. controls (rerender p st) = Some c'
                  \<and> enableRotate c' = map_option (\<lambda>b. True) (enableRotate c)
                  \<and> enabled c' = map_option (\<lambda>b. True) (enabled c)
                  \<and> target c' = Some (0, 0, 0)))
         \<and> (next_id st, now st + 600) \<in> set (timers (rerender p st))
         \<and> cleanup (rerender p st) = Some (next_id st)
         \<and> (quiet evs \<and> 600 \<le> elapsed evs \<longrightarrow> targetRef (run evs (rerender p st)) = None)
         \<and> (timers_inv st \<and> quiet evs' \<and> elapsed evs' < 600 \<longrightarrow>
               timers (rerender p st) = [(next_id st, now st + 600)]
               \<and> targetRef (run evs' (rerender p st)) = Some (0, 0, 0))"
proof -
  note f = rerender_reset_fields [OF assms(1) assms]
  have armed: "(next_id st, now st + 600) \<in> set (timers (rerender p st))"
    by (simp add: f)
  have ctl: "\<forall>c. controls (st\<lparr> props := p \<rparr>) = Some c \<longrightarrow>
               (\<exists>c'. controls (rerender p st) = Some c'
                  \<and> enableRotate c' = map_option (\<lambda>b. True) (enableRotate c)
                  \<and> enabled c' = map_option (\<lambda>b. True) (enabled c)
                  \<and> target c' = Some (0, 0, 0))"
    by (simp add: f enable_controls_fields)
  have expiry: "quiet evs \<and> 600 \<le> elapsed evs \<longrightarrow> targetRef (run evs (rerender p st)) = None"
  proof
    assume a: "quiet evs \<and> 600 \<le> elapsed evs"
    have "now (rerender p st) < now st + 600" by (simp add: f)
    moreover have "now st + 600 \<le> now (rerender p st) + elapsed evs" using a by (simp add: f)
    ultimately show "targetRef (run evs (rerender p st)) = None"
      using a armed quiet_fires [of evs "next_id st" "now st + 600" "rerender p st"] by simp
  qed
  have before: "timers_inv st \<and> quiet evs' \<and> elapsed evs' < 600 \<longrightarrow>
               timers (rerender p st) = [(next_id st, now st + 600)]
               \<and> targetRef (run evs' (rerender p st)) = Some (0, 0, 0)"
  proof
    assume a: "timers_inv st \<and> quiet evs' \<and> elapsed evs' < 600"
    then have t: "timers (rerender p st) = [(next_id st, now st + 600)]"
      using rerender_reset_timers_inv [OF assms] by simp
    then have "\<forall>tm \<in> set (timers (rerender p st)). now (rerender p st) + elapsed evs' < snd tm"
      using a by (simp add: f(4))
    then have "targetRef (run evs' (rerender p st)) = targetRef (rerender p st)"
      using a quiet_no_fire [of evs' "rerender p st"] by simp
    then show "timers (rerender p st) = [(next_id st, now st + 600)]
               \<and> targetRef (run evs' (rerender p st)) = Some (0, 0, 0)"
      using t by (simp add: f(1))
  qed
  show ?thesis
    using f(1) f(2) f(3) armed ctl expiry before by simp
qed

text \<open>
  C4 at the sample scene, reset while the camera is focused on the asteroid and the controls
  have rotation switched off.
\<close>

theorem reset_signal_homing_witness:
  "resetSignal sample_reset = Some 1
   \<and> resetSignal (props (sample_focused\<lparr> controls_objs := (\<lambda>r. sample_controls) \<rparr>)) \<noteq> Some 1
   \<and> timers_inv (sample_focused\<lparr> controls_objs := (\<lambda>r. sample_controls) \<rparr>)
   \<and> quiet [Frame, Elapse 600] \<and> 600 \<le> elapsed [Frame, Elapse 600]
   \<and> quiet [Elapse 599, Frame] \<and> elapsed [Elapse 599, Frame] < 600
   \<and> targetRef (sample_focused\<lparr> controls_objs := (\<lambda>r. sample_controls) \<rparr>) = Some (30, 0, 0)
   \<and> controls (sample_focused\<lparr> controls_objs := (\<lambda>r. sample_controls),
                                props := sample_reset \<rparr>) = Some sample_controls
   \<and> enableRotate sample_controls = Some False
   \<and> targetRef (rerender sample_reset
         (sample_focused\<lparr> controls_objs := (\<lambda>r. sample_controls) \<rparr>)) = Some (0, 0, 0)
   \<and> cam_position (camera (rerender sample_reset
         (sample_focused\<lparr> controls_objs := (\<lambda>r. sample_controls) \<rparr>))) = (0, 20, 40)
   \<and> timers (rerender sample_reset
         (sample_focused\<lparr> controls_objs := (\<lambda>r. sample_controls) \<rparr>)) = [(2, 1600)]
   \<and> (\<exists>c'. controls (rerender sample_reset
                (sample_focused\<lparr> controls_objs := (\<lambda>r. sample_controls) \<rparr>)) = Some c'
          \<and> enableRotate c' = Some True \<and> enabled c' = Some True)
   \<and> targetRef (run [Frame, Elapse 600] (rerender sample_reset
         (sample_focused\<lparr> controls_objs := (\<lambda>r. sample_controls) \<rparr>))) = None
   \<and> targetRef (run [Elapse 599, Frame] (rerender sample_reset
         (sample_focused\<lparr> controls_objs := (\<lambda>r. sample_controls) \<rparr>))) = Some (0, 0, 0)"
proof -
  let ?st = "sample_focused\<lparr> controls_objs := (\<lambda>r. sample_controls) \<rparr>"
  have h1: "resetSignal sample_reset = Some 1"
    by (simp add: sample_reset_def)
  have h2: "resetSignal (props ?st) \<noteq> Some 1"
    by (simp add: sample_focused_fields sample_select_def sample_app_def App_props_def)
  have inv: "timers_inv ?st"
    by (simp add: timers_inv_def sample_focused_fields)
  have d: "data sample_reset = [sample]"
    by (simp add: sample_reset_def sample_select_def sample_app_def App_props_def)
  have c: "enableRotate sample_controls = Some False" "enabled sample_controls = Some True"
    by (simp_all add: sample_controls_def)
  have k: "controls (?st\<lparr> props := sample_reset \<rparr>) = Some sample_controls"
    by (simp add: controls_def sample_reset_def sample_select_def sample_app_def)
  show ?thesis
    using reset_signal_homing [OF h1 h2, of "[Frame, Elapse 600]" "[Elapse 599, Frame]"]
      h1 h2 inv k
    by (auto simp: sample_focused_fields d c scale_sample)
qed

text \<open>
  C5. Two changes of the reset signal, the second \<open>d < 600\<close> ms after the first: the
  timeout of the first has not run when the second arrives and is cleared by the cleanup
  function, so that exactly one timeout is pending afterwards, due 600 ms after the second
  signal. Its callback is the only one that runs: the target stays the origin until then
  and is null from then on.
\<close>

theorem double_reset_single_idle:
  assumes "timers_inv st"
    and "resetSignal p1 = Some n1" and "resetSignal (props st) \<noteq> Some n1"
    and "resetSignal p2 = Some n2" and "n2 \<noteq> n1"
    and "d < 600"
    and "st2 = rerender p2 (elapse d (rerender p1 st))"
  shows "targetRef (elapse d (rerender p1 st)) = Some (0, 0, 0)
         \<and> timers (elapse d (rerender p1 st)) = [(next_id st, now st + 600)]
         \<and> now st2 = now st + d
         \<and> timers st2 = [(Suc (next_id st), now st + d + 600)]
         \<and> targetRef st2 = Some (0, 0, 0)
         \<and> fired e st2 = (if e < 600 then 0 else 1)
         \<and> targetRef (elapse e st2) = (if e < 600 then Some (0, 0, 0) else None)
         \<and> (quiet evs \<and> elapsed evs < 600 \<longrightarrow> targetRef (run evs st2) = Some (0, 0, 0))
         \<and> (quiet evs' \<and> 600 \<le> elapsed evs' \<longrightarrow> targetRef (run evs' st2) = None)"
proof -
  let ?s1 = "rerender p1 st" and ?e1 = "elapse d (rerender p1 st)"
  note f1 = rerender_reset_fields [OF assms(2) assms(2) assms(3)]
  have t1: "timers ?s1 = [(next_id st, now st + 600)]"
    using assms(1-3) by (rule rerender_reset_timers_inv [rotated 2])
  have te: "timers ?e1 = [(next_id st, now st + 600)]"
    using assms(6) by (simp add: elapse_fields f1(1,4) t1 is_due_def)
  have tg: "targetRef ?e1 = Some (0, 0, 0)"
    using assms(6) by (simp add: elapse_fields f1(1,4) t1 is_due_def)
  have inv1: "timers_inv ?e1"
    using assms(1) by (intro timers_inv_elapse timers_inv_rerender)
  have r2: "resetSignal (props ?e1) \<noteq> Some n2"
    using assms(2,5) by (simp add: elapse_fields f1(6))
  note f2 = rerender_reset_fields [OF assms(4) assms(4) r2]
  have n2: "now st2 = now st + d"
    by (simp add: assms(7) f2(4) elapse_fields f1(4))
  have t2: "timers st2 = [(Suc (next_id st), now st + d + 600)]"
    using rerender_reset_timers_inv [OF assms(4) r2 inv1]
    by (simp add: assms(7) elapse_fields f1(4,5))
  have g2: "targetRef st2 = Some (0, 0, 0)"
    by (simp add: assms(7) f2(1))
  have fi: "fired e st2 = (if e < 600 then 0 else 1)"
    by (simp add: fired_def t2 n2 is_due_def)
  have el: "targetRef (elapse e st2) = (if e < 600 then Some (0, 0, 0) else None)"
    by (simp add: elapse_fields t2 n2 g2 is_due_def)
  have q1: "quiet evs \<and> elapsed evs < 600 \<longrightarrow> targetRef (run evs st2) = Some (0, 0, 0)"
  proof
    assume a: "quiet evs \<and> elapsed evs < 600"
    then have "\<forall>tm \<in> set (timers st2). now st2 + elapsed evs < snd tm"
      by (simp add: t2 n2)
    then show "targetRef (run evs st2) = Some (0, 0, 0)"
      using a quiet_no_fire [of evs st2] g2 by simp
  qed
  have q2: "quiet evs' \<and> 600 \<le> elapsed evs' \<longrightarrow> targetRef (run evs' st2) = None"
  proof
    assume a: "quiet evs' \<and> 600 \<le> elapsed evs'"
    have "(Suc (next_id st), now st + d + 600) \<in> set (timers st2)" by (simp add: t2)
    moreover have "now st2 < now st + d + 600" by (simp add: n2)
    moreover have "now st + d + 600 \<le> now st2 + elapsed evs'" using a by (simp add: n2)
    ultimately show "targetRef (run evs' st2) = None"
      using a quiet_fires [of evs' "Suc (next_id st)" "now st + d + 600" st2] by simp
  qed
  show ?thesis using tg te n2 t2 g2 fi el q1 q2 by simp
qed

text \<open>C5 at the sample scene: resets at 1000 ms and 1200 ms, one callback at 1800 ms.\<close>

theorem double_reset_single_idle_witness:
  "timers_inv sample_idle
   \<and> resetSignal sample_home = Some 1 \<and> resetSignal (props sample_idle) \<noteq> Some 1
   \<and> resetSignal sample_home2 = Some 2 \<and> (2::real) \<noteq> 1 \<and> (200::nat) < 600
   \<and> quiet [Elapse 400, Frame] \<and> elapsed [Elapse 400, Frame] < 600
   \<and> quiet [Elapse 400, Frame, Elapse 200] \<and> 600 \<le> elapsed [Elapse 400, Frame, Elapse 200]
   \<and> timers (rerender sample_home2 (elapse 200 (rerender sample_home sample_idle)))
        = [(3, 1800)]
   \<and> fired 400 (rerender sample_home2 (elapse 200 (rerender sample_home sample_idle))) = 0
   \<and> fired 600 (rerender sample_home2 (elapse 200 (rerender sample_home sample_idle))) = 1
   \<and> targetRef (run [Elapse 400, Frame]
        (rerender sample_home2 (elapse 200 (rerender sample_home sample_idle))))
        = Some (0, 0, 0)
   \<and> targetRef (run [Elapse 400, Frame, Elapse 200]
        (rerender sample_home2 (elapse 200 (rerender sample_home sample_idle))))
        = None"
proof -
  have r2: "resetSignal sample_home2 = Some 2" by (simp add: sample_home2_def)
  have n: "(2::real) \<noteq> 1" and d: "(200::nat) < 600" by simp_all
  note t = double_reset_single_idle [OF sample_idle_fields(6) sample_home_facts(1,2) r2 n d refl]
  show ?thesis
    using t [of 400 "[Elapse 400, Frame]" "[Elapse 400, Frame, Elapse 200]"] t [of 600]
      sample_idle_fields(6) sample_home_facts(1,2) r2
    by (simp add: sample_idle_fields(4,5))
qed

text \<open>
  C7. A frame with no target leaves every camera and every controls object as it is. A frame
  with target \<open>(tx, ty, tz)\<close> moves each coordinate of the camera position by 0.08 of its
  distance to the target plus \<open>(0, 12, 24) * scale\<close>; with controls, their target (the
  origin when it was undefined) moves by the same factor towards the target and
  \<open>update\<close> is called once; without controls the camera looks at the target.
\<close>

theorem useFrame_camera:
  "(targetRef st = None \<longrightarrow>
      cameras (useFrame st) = cameras st \<and> controls_objs (useFrame st) = controls_objs st
      \<and> camera (useFrame st) = camera st \<and> controls (useFrame st) = controls st
      \<and> targetRef (useFrame st) = None)
   \<and> (targetRef st = Some (tx, ty, tz) \<and> cam_position (camera st) = (cx, cy, cz) \<longrightarrow>
        cam_position (camera (useFrame st))
          = (cx + (tx + 0 - cx) * 0.08,
             cy + (ty + 12 * scale (data (props st)) - cy) * 0.08,
             cz + (tz + 24 * scale (data (props st)) - cz) * 0.08)
        \<and> (\<forall>c. controls st = Some c \<longrightarrow>
              (\<exists>c'. controls (useFrame st) = Some c'
                 \<and> target c' = Some (lerp (case target c of None \<Rightarrow> (0, 0, 0) | Some v \<Rightarrow> v)
                                        (tx, ty, tz) 0.08)
                 \<and> update_calls c' = Suc (update_calls c))
              \<and> cam_lookAt (camera (useFrame st)) = cam_lookAt (camera st))
        \<and> (controls st = None \<longrightarrow>
              controls (useFrame st) = None
              \<and> cam_lookAt (camera (useFrame st)) = Some (tx, ty, tz)))"
proof -
  have idle: "targetRef st = None \<longrightarrow>
      cameras (useFrame st) = cameras st \<and> controls_objs (useFrame st) = controls_objs st
      \<and> camera (useFrame st) = camera st \<and> controls (useFrame st) = controls st
      \<and> targetRef (useFrame st) = None"
    by (simp add: useFrame_def camera_def controls_def)
  have focus: "targetRef st = Some (tx, ty, tz) \<and> cam_position (camera st) = (cx, cy, cz) \<longrightarrow>
        cam_position (camera (useFrame st))
          = (cx + (tx + 0 - cx) * 0.08,
             cy + (ty + 12 * scale (data (props st)) - cy) * 0.08,
             cz + (tz + 24 * scale (data (props st)) - cz) * 0.08)
        \<and> (\<forall>c. controls st = Some c \<longrightarrow>
              (\<exists>c'. controls (useFrame st) = Some c'
                 \<and> target c' = Some (lerp (case target c of None \<Rightarrow> (0, 0, 0) | Some v \<Rightarrow> v)
                                        (tx, ty, tz) 0.08)
                 \<and> update_calls c' = Suc (update_calls c))
              \<and> cam_lookAt (camera (useFrame st)) = cam_lookAt (camera st))
        \<and> (controls st = None \<longrightarrow>
              controls (useFrame st) = None
              \<and> cam_lookAt (camera (useFrame st)) = Some (tx, ty, tz))"
    by (auto simp: useFrame_def camera_def controls_def Let_def split: option.splits)
  show ?thesis using idle focus by (rule conjI)
qed

text \<open>
  C7 at the sample scene: idle, focused with controls, and focused in a render that read no
  controls.
\<close>

theorem useFrame_camera_witness:
  "targetRef sample_idle = None \<and> camera (useFrame sample_idle) = camera sample_idle
   \<and> targetRef sample_focused = Some (30, 0, 0)
   \<and> cam_position (camera sample_focused) = (0, 20, 40)
   \<and> scale (data (props sample_focused)) = 3 / 10
   \<and> cam_position (camera (useFrame sample_focused)) = (2.4, 18.688, 37.376)
   \<and> (\<exists>c'. controls (useFrame sample_focused) = Some c' \<and> target c' = Some (2.4, 0, 0)
          \<and> update_calls c' = 2)
   \<and> controls (sample_focused\<lparr> props := sample_select\<lparr> controls_ref := None \<rparr> \<rparr>) = None
   \<and> cam_lookAt (camera (useFrame
         (sample_focused\<lparr> props := sample_select\<lparr> controls_ref := None \<rparr> \<rparr>))) = Some (30, 0, 0)"
proof -
  let ?bare = "sample_focused\<lparr> props := sample_select\<lparr> controls_ref := None \<rparr> \<rparr>"
  have a: "camera (useFrame sample_idle) = camera sample_idle"
    using useFrame_camera [of sample_idle] by (simp add: sample_idle_fields(2))
  have b: "cam_position (camera (useFrame sample_focused)) = (2.4, 18.688, 37.376)
           \<and> (\<exists>c'. controls (useFrame sample_focused) = Some c' \<and> target c' = Some (2.4, 0, 0)
          \<and> update_calls c' = 2)"
    using useFrame_camera [of sample_focused 30 0 0 0 20 40]
    by (auto simp: sample_focused_fields sample_focused_camera sample_focused_controls
          scale_sample_select)
  have k: "controls ?bare = None" by (simp add: controls_def)
  have "camera ?bare = camera sample_focused"
    by (simp add: camera_def sample_focused_fields(1))
  then have p: "cam_position (camera ?bare) = (0, 20, 40)"
    by (simp add: sample_focused_camera)
  have c: "cam_lookAt (camera (useFrame ?bare)) = Some (30, 0, 0)"
    using useFrame_camera [of ?bare 30 0 0 0 20 40] k p
    by (simp add: sample_focused_fields(2))
  show ?thesis
    using a b c k
    by (simp add: sample_idle_fields(2) sample_focused_fields sample_focused_camera
          scale_sample_select)
qed

text \<open>
  C10. Mounting with the props of \<open>App\<close>, whose reset signal starts at the number 0, runs
  the reset branch, whether or not the first render reads a controls object: the target is
  the origin, the camera is at the home position and one timeout is pending, due at 600 ms.
\<close>

theorem mount_runs_reset:
  "resetSignal (App_props asteroids) = Some 0
   \<and> targetRef (initial c) = None
   \<and> targetRef (mount ((App_props asteroids)\<lparr> controls_ref := r \<rparr>) (initial c)) = Some (0, 0, 0)
   \<and> cam_position (camera (mount ((App_props asteroids)\<lparr> controls_ref := r \<rparr>) (initial c)))
       = (0, 20 * max 1 (scale asteroids), 40 * max 1 (scale asteroids))
   \<and> timers (mount ((App_props asteroids)\<lparr> controls_ref := r \<rparr>) (initial c)) = [(0, 600)]
   \<and> cleanup (mount ((App_props asteroids)\<lparr> controls_ref := r \<rparr>) (initial c)) = Some 0"
proof -
  let ?p = "(App_props asteroids)\<lparr> controls_ref := r \<rparr>"
  have r: "resetSignal ?p = Some 0" by (simp add: App_props_def)
  have d: "data ?p = asteroids" by (simp add: App_props_def)
  note f = reset_effect_fields [OF r, of "highlight_effect ?p ((initial c)\<lparr> props := ?p \<rparr>)"]
  have "props (mount ?p (initial c)) = ?p"
    unfolding mount_def by (simp add: f(7) highlight_effect_frame)
  then have "cam_position (camera (mount ?p (initial c)))
       = (0, 20 * max 1 (scale asteroids), 40 * max 1 (scale asteroids))"
    unfolding camera_def mount_def using f(2) by (simp add: d)
  moreover have "targetRef (mount ?p (initial c)) = Some (0, 0, 0)"
    unfolding mount_def by (rule f(1))
  moreover have "timers (mount ?p (initial c)) = [(0, 600)]"
    unfolding mount_def f(3) by (simp add: highlight_effect_frame initial_def)
  moreover have "cleanup (mount ?p (initial c)) = Some 0"
    unfolding mount_def f(4) by (simp add: highlight_effect_frame initial_def)
  moreover have "resetSignal (App_props asteroids) = Some 0" "targetRef (initial c) = None"
    by (simp_all add: App_props_def initial_def)
  ultimately show ?thesis by simp
qed

end
